theory Spec2Isabelle
  imports Complex_Main "HOL-Library.Word"
begin

section \<open>Strings and JSON values\<close>

text \<open>
  A JavaScript string is a sequence of UTF-16 code units. The identifiers and keys of
  the program are ASCII and are written through \<open>ascii\<close>; the localized literals are
  written as their code units.
\<close>

type_synonym jsstring = "16 word list"

definition ascii :: "string \<Rightarrow> jsstring" where
  "ascii s = map of_char s"

text \<open>
  The values \<open>JSON.parse\<close> yields. \<open>JObj\<close> keeps the members in the order of the
  text; a later duplicate of a key wins. A value of type \<open>jsonval option\<close> is a
  JavaScript value that may be \<open>undefined\<close> (\<open>None\<close>).
\<close>

datatype jsonval =
    JNull
  | JBool bool
  | JNum rat
  | JStr jsstring
  | JArr "jsonval list"
  | JObj "(jsstring \<times> jsonval) list"

text \<open>Truthiness, as \<open>||\<close> tests it.\<close>

fun truthy :: "jsonval option \<Rightarrow> bool" where
  "truthy None = False"
| "truthy (Some JNull) = False"
| "truthy (Some (JBool b)) = b"
| "truthy (Some (JNum r)) = (r \<noteq> 0)"
| "truthy (Some (JStr s)) = (s \<noteq> [])"
| "truthy (Some (JArr xs)) = True"
| "truthy (Some (JObj kvs)) = True"

text \<open>
  \<open>v.k\<close> for a value \<open>v\<close> that is neither \<open>null\<close> nor \<open>undefined\<close> and one of the
  property names the program reads (\<open>candidates\<close>, \<open>content\<close>, \<open>parts\<close>, \<open>text\<close>,
  \<open>error\<close>, \<open>message\<close>): only an object can have such a property.
\<close>

fun get_prop :: "jsstring \<Rightarrow> jsonval \<Rightarrow> jsonval option" where
  "get_prop k (JObj kvs) = map_of (rev kvs) k"
| "get_prop k v = None"

text \<open>\<open>v[0]\<close> for a value \<open>v\<close> that is neither \<open>null\<close> nor \<open>undefined\<close>.\<close>

fun index0 :: "jsonval \<Rightarrow> jsonval option" where
  "index0 (JArr []) = None"
| "index0 (JArr (x # xs)) = Some x"
| "index0 (JStr []) = None"
| "index0 (JStr (c # cs)) = Some (JStr [c])"
| "index0 (JObj kvs) = map_of (rev kvs) (ascii ''0'')"
| "index0 v = None"

text \<open>Optional chaining \<open>v?.p\<close>: \<open>undefined\<close> when \<open>v\<close> is \<open>null\<close> or \<open>undefined\<close>.\<close>

fun opt_chain :: "(jsonval \<Rightarrow> jsonval option) \<Rightarrow> jsonval option \<Rightarrow> jsonval option" where
  "opt_chain f None = None"
| "opt_chain f (Some JNull) = None"
| "opt_chain f (Some v) = f v"

section \<open>GeminiService\<close>

text \<open>
  The errors a call can end with. \<open>ApiError v\<close> is the error whose message is
  \<open>API Error: \<close> followed by the string conversion of \<open>v\<close>; \<open>ServerError s\<close> has
  the message \<open>Server error: s\<close>; \<open>ParseFailure\<close> is the error thrown when the text
  field is \<open>undefined\<close>; \<open>MissingCredential\<close> is the error of \<open>getApiKey\<close>;
  \<open>FetchRejected\<close> is a rejection of \<open>fetch\<close> itself, \<open>JsonRejected\<close> a rejection of
  \<open>response.json()\<close>, \<open>TypeError\<close> a property read on \<open>null\<close>.
\<close>

datatype error =
    MissingCredential
  | FetchRejected jsstring
  | ServerError nat
  | ApiError jsonval
  | JsonRejected
  | TypeError
  | ParseFailure

text \<open>
  What the storage holds under \<open>API_KEY_STORAGE_ITEM\<close>: nothing (or the empty
  string), a text whose parsing or destructuring raises, or the pair written by
  \<open>setApiKey\<close>.
\<close>

datatype stored = Absent | Malformed | Item (item_value: jsstring) (item_timestamp: int)

text \<open>
  Reading \<open>process.env.API_KEY\<close>: the read raises (\<open>process\<close> is not defined, or has
  no \<open>env\<close>), or it yields a value, \<open>undefined\<close> when the variable is not set.
\<close>

datatype process_env = Unreadable | Readable "jsstring option"

record GeminiService =
  apiKey :: "jsstring option"
  localStorage :: stored

definition API_KEY_EXPIRATION_MS :: int where
  "API_KEY_EXPIRATION_MS = 2 * 60 * 60 * 1000"

definition clearApiKey :: "GeminiService \<Rightarrow> GeminiService" where
  "clearApiKey s = s\<lparr>apiKey := None, localStorage := Absent\<rparr>"

definition loadApiKey :: "int \<Rightarrow> GeminiService \<Rightarrow> GeminiService" where
  "loadApiKey now s =
     (case localStorage s of
        Absent \<Rightarrow> s
      | Malformed \<Rightarrow> clearApiKey s
      | Item v timestamp \<Rightarrow>
          if now - timestamp < API_KEY_EXPIRATION_MS then s\<lparr>apiKey := Some v\<rparr>
          else clearApiKey s)"

text \<open>
  \<open>getApiKey\<close> returns the key (\<open>None\<close> is \<open>undefined\<close>) or raises. \<open>!this.apiKey\<close>
  holds for \<open>null\<close> and for the empty string.
\<close>

definition getApiKey ::
  "int \<Rightarrow> process_env \<Rightarrow> GeminiService \<Rightarrow> (error + jsstring option) \<times> GeminiService" where
  "getApiKey now env s =
     (let s' = loadApiKey now s in
      if apiKey s' = None \<or> apiKey s' = Some [] then
        (case env of
           Unreadable \<Rightarrow> (Inl MissingCredential, s')
         | Readable v \<Rightarrow> (Inr v, s'))
      else (Inr (apiKey s'), s'))"

text \<open>A response of \<open>fetch\<close>; \<open>json = None\<close> when \<open>response.json()\<close> rejects.\<close>

record response =
  ok :: bool
  status :: nat
  statusText :: jsstring
  json :: "jsonval option"

datatype fetch_outcome = Rejected jsstring | Responded response

text \<open>
  What a call does to the outside, in order: a request (the key as it appears in the
  URL, and the body), or a wait of so many milliseconds.
\<close>

datatype 'b event = Fetch jsstring 'b | Delay nat

text \<open>The key inside the template literal of the URL.\<close>

definition key_text :: "jsstring option \<Rightarrow> jsstring" where
  "key_text k = (case k of None \<Rightarrow> ascii ''undefined'' | Some s \<Rightarrow> s)"

text \<open>\<open>data.candidates?.[0]?.content?.parts?.[0]?.text\<close> for \<open>data\<close> other than \<open>null\<close>.\<close>

definition response_text :: "jsonval \<Rightarrow> jsonval option" where
  "response_text data =
     opt_chain (get_prop (ascii ''text''))
       (opt_chain index0
         (opt_chain (get_prop (ascii ''parts''))
           (opt_chain (get_prop (ascii ''content''))
             (opt_chain index0 (get_prop (ascii ''candidates'') data)))))"

text \<open>
  The body of the \<open>try\<close> block, from the outcome of \<open>fetch\<close> on: the text, or the
  error thrown. The loop only runs it with \<open>attempt < maxRetries\<close>, so the
  subtraction is exact.
\<close>

definition try_block :: "fetch_outcome \<Rightarrow> nat \<Rightarrow> nat \<Rightarrow> error + jsonval" where
  "try_block out maxRetries attempt =
     (case out of
        Rejected m \<Rightarrow> Inl (FetchRejected m)
      | Responded r \<Rightarrow>
          if \<not> ok r then
            (if status r \<ge> 500 \<and> attempt < maxRetries - 1 then Inl (ServerError (status r))
             else
               (case json r of
                  None \<Rightarrow> Inl JsonRejected
                | Some JNull \<Rightarrow> Inl TypeError
                | Some errorData \<Rightarrow>
                    (case opt_chain (get_prop (ascii ''message''))
                            (get_prop (ascii ''error'') errorData) of
                       None \<Rightarrow> Inl (ApiError (JStr (statusText r)))
                     | Some m \<Rightarrow>
                         Inl (ApiError (if truthy (Some m) then m else JStr (statusText r))))))
          else
            (case json r of
               None \<Rightarrow> Inl JsonRejected
             | Some JNull \<Rightarrow> Inl TypeError
             | Some data \<Rightarrow>
                 (case response_text data of
                    None \<Rightarrow> Inl ParseFailure
                  | Some text \<Rightarrow> Inr text)))"

text \<open>
  The \<open>while\<close> loop. \<open>net k\<close> is the outcome of the \<open>k\<close>-th request of the call,
  counted from 0: every iteration makes exactly one request, so iteration \<open>attempt\<close>
  sees \<open>net attempt\<close>. A loop that is never entered returns \<open>undefined\<close>.
\<close>

function fetch_loop ::
  "(nat \<Rightarrow> fetch_outcome) \<Rightarrow> jsstring \<Rightarrow> 'b \<Rightarrow> nat \<Rightarrow> nat
     \<Rightarrow> (error + jsonval option) \<times> 'b event list" where
  "fetch_loop net key body maxRetries attempt =
     (if attempt < maxRetries then
        (case try_block (net attempt) maxRetries attempt of
           Inr text \<Rightarrow> (Inr (Some text), [Fetch key body])
         | Inl err \<Rightarrow>
             if attempt + 1 \<ge> maxRetries then (Inl err, [Fetch key body])
             else
               (case fetch_loop net key body maxRetries (attempt + 1) of
                  (r, tr) \<Rightarrow> (r, Fetch key body # Delay (2 ^ (attempt + 1) * 1000) # tr)))
      else (Inr None, []))"
  by pat_completeness auto
termination
  by (relation "measure (\<lambda>(net, key, body, maxRetries, attempt). maxRetries - attempt)") auto

definition fetchWithRetry ::
  "int \<Rightarrow> process_env \<Rightarrow> (nat \<Rightarrow> fetch_outcome) \<Rightarrow> 'b \<Rightarrow> nat \<Rightarrow> GeminiService
     \<Rightarrow> (error + jsonval option) \<times> 'b event list \<times> GeminiService" where
  "fetchWithRetry now env net body maxRetries s =
     (case getApiKey now env s of
        (Inl e, s') \<Rightarrow> (Inl e, [], s')
      | (Inr k, s') \<Rightarrow>
          (case fetch_loop net (key_text k) body maxRetries 0 of
             (r, tr) \<Rightarrow> (r, tr, s')))"

text \<open>
  The two public calls. The prompt is the fixed template around the note, or around
  the serialized log; both use the default \<open>maxRetries = 3\<close>.
\<close>

datatype 'l prompt = PolishPrompt jsstring | ReportPrompt 'l

record 'l request_body =
  contents :: "'l prompt"
  temperature :: rat
  maxOutputTokens :: nat

definition polishText ::
  "int \<Rightarrow> process_env \<Rightarrow> (nat \<Rightarrow> fetch_outcome) \<Rightarrow> jsstring \<Rightarrow> GeminiService
     \<Rightarrow> (error + jsonval option) \<times> 'l request_body event list \<times> GeminiService" where
  "polishText now env net text s =
     fetchWithRetry now env net
       \<lparr>contents = PolishPrompt text, temperature = 5 / 10, maxOutputTokens = 256\<rparr> 3 s"

definition generateReport ::
  "int \<Rightarrow> process_env \<Rightarrow> (nat \<Rightarrow> fetch_outcome) \<Rightarrow> 'l \<Rightarrow> GeminiService
     \<Rightarrow> (error + jsonval option) \<times> 'l request_body event list \<times> GeminiService" where
  "generateReport now env net logData s =
     fetchWithRetry now env net
       \<lparr>contents = ReportPrompt logData, temperature = 7 / 10, maxOutputTokens = 2048\<rparr> 3 s"

subsection \<open>Traces, outcomes and sample inputs\<close>

text \<open>The number of requests in a trace, and its waits in order.\<close>

fun attempts :: "'b event list \<Rightarrow> nat" where
  "attempts [] = 0"
| "attempts (Fetch k b # tr) = Suc (attempts tr)"
| "attempts (Delay d # tr) = attempts tr"

fun delays :: "'b event list \<Rightarrow> nat list" where
  "delays [] = []"
| "delays (Fetch k b # tr) = delays tr"
| "delays (Delay d # tr) = d # delays tr"

text \<open>
  The retry contract for the default bound of 3, in the words of the specification:
  with \<open>a1\<close>, \<open>a2\<close>, \<open>a3\<close> the outcomes of the first, second and third attempt and
  \<open>F\<close> the request, at most three requests are made; the call returns at the first
  attempt that succeeds; a failure of attempt \<open>k < 3\<close> is followed by a wait of
  \<open>2 ^ k * 1000\<close> ms and attempt \<open>k + 1\<close>; the error of a failing third attempt is
  the error of the call.
\<close>

definition three_attempt_backoff ::
  "(nat \<Rightarrow> fetch_outcome) \<Rightarrow> 'b event
     \<Rightarrow> (error + jsonval option) \<times> 'b event list \<times> GeminiService \<Rightarrow> bool" where
  "three_attempt_backoff net F res =
     (let a1 = try_block (net 0) 3 0; a2 = try_block (net 1) 3 1; a3 = try_block (net 2) 3 2;
          r = fst res; tr = fst (snd res)
      in attempts tr \<le> 3
         \<and> (\<not> isl a1 \<longrightarrow> tr = [F] \<and> r = Inr (Some (projr a1)))
         \<and> (isl a1 \<and> \<not> isl a2 \<longrightarrow>
              tr = [F, Delay (2 ^ 1 * 1000), F] \<and> r = Inr (Some (projr a2)))
         \<and> (isl a1 \<and> isl a2 \<and> \<not> isl a3 \<longrightarrow>
              tr = [F, Delay (2 ^ 1 * 1000), F, Delay (2 ^ 2 * 1000), F]
              \<and> r = Inr (Some (projr a3)))
         \<and> (isl a1 \<and> isl a2 \<and> isl a3 \<longrightarrow>
              tr = [F, Delay (2 ^ 1 * 1000), F, Delay (2 ^ 2 * 1000), F]
              \<and> r = Inl (projl a3)))"

text \<open>
  Kinds of outcome of a request: a non-success response with a 5xx status; a success
  response whose body parses but has no text field; a success response with text \<open>t\<close>.
\<close>

definition server_error :: "fetch_outcome \<Rightarrow> bool" where
  "server_error out =
     (case out of Rejected m \<Rightarrow> False | Responded r \<Rightarrow> \<not> ok r \<and> status r \<ge> 500)"

definition missing_text :: "fetch_outcome \<Rightarrow> bool" where
  "missing_text out =
     (case out of
        Rejected m \<Rightarrow> False
      | Responded r \<Rightarrow>
          ok r \<and> (case json r of
                    None \<Rightarrow> False
                  | Some data \<Rightarrow> data \<noteq> JNull \<and> response_text data = None))"

definition success_text :: "fetch_outcome \<Rightarrow> jsonval \<Rightarrow> bool" where
  "success_text out t =
     (case out of
        Rejected m \<Rightarrow> False
      | Responded r \<Rightarrow>
          ok r \<and> (case json r of
                    None \<Rightarrow> False
                  | Some data \<Rightarrow> data \<noteq> JNull \<and> response_text data = Some t))"

text \<open>
  Two runs of the loop are treated alike: the same requests and waits in the same
  order, and the same result unless both end with an error.
\<close>

definition same_outcome ::
  "(error + jsonval option) \<times> 'b event list \<Rightarrow> (error + jsonval option) \<times> 'b event list
     \<Rightarrow> bool" where
  "same_outcome p q \<longleftrightarrow>
     snd p = snd q \<and> (fst p = fst q \<or> (isl (fst p) \<and> isl (fst q)))"

text \<open>Sample services, responses and endpoints.\<close>

definition stored_service :: GeminiService where
  "stored_service = \<lparr>apiKey = None, localStorage = Item (ascii ''KEY'') 0\<rparr>"

definition no_key_service :: GeminiService where
  "no_key_service = \<lparr>apiKey = None, localStorage = Absent\<rparr>"

definition text_response :: response where
  "text_response =
     \<lparr>ok = True, status = 200, statusText = ascii ''OK'',
      json = Some (JObj [(ascii ''candidates'',
               JArr [JObj [(ascii ''content'',
                 JObj [(ascii ''parts'', JArr [JObj [(ascii ''text'', JStr (ascii ''hi''))]])])]])])\<rparr>"

definition empty_candidates_response :: response where
  "empty_candidates_response =
     \<lparr>ok = True, status = 200, statusText = ascii ''OK'',
      json = Some (JObj [(ascii ''candidates'', JArr [])])\<rparr>"

definition server_error_response :: response where
  "server_error_response =
     \<lparr>ok = False, status = 500, statusText = ascii ''Internal Server Error'',
      json = Some (JObj [(ascii ''error'', JObj [(ascii ''message'', JStr (ascii ''down''))])])\<rparr>"

definition not_found_response :: response where
  "not_found_response =
     \<lparr>ok = False, status = 404, statusText = ascii ''Not Found'',
      json = Some (JObj [(ascii ''error'', JObj [(ascii ''message'', JStr (ascii ''bad''))])])\<rparr>"

definition two_failures_then_text :: "nat \<Rightarrow> fetch_outcome" where
  "two_failures_then_text k = Responded (if k < 2 then server_error_response else text_response)"

section \<open>AppComponent\<close>

text \<open>
  The signals of the component are fields of one record; a signal held inside a list
  element (\<open>active\<close>, \<open>elapsedTime\<close>, \<open>count\<close>) is a field of that element. Times
  are the readings of \<open>Date.now()\<close>, in milliseconds.
\<close>

record TeachingMode =
  mode_id :: jsstring
  mode_name :: jsstring
  mode_icon :: jsstring
  active :: bool
  elapsedTime :: nat

record TeachingAction =
  action_id :: jsstring
  action_name :: jsstring
  action_icon :: jsstring
  count :: nat

datatype entry_type = Mode | Action | Note | Engagement | Session

record LogEntry =
  timestamp :: int
  message :: jsstring
  entry_type :: entry_type

datatype level = High | Medium | Low

text \<open>
  \<open>engagementValue\<close> holds the result of \<open>parseInt\<close>: an integer, or \<open>NaN\<close>
  (\<open>None\<close>). \<open>modeTimer\<close> and \<open>reminderCheck\<close> count the live intervals of the
  second and of the third effect of the constructor. The signals of the settings
  dialog and of the AI calls are not read or written by the operations below and are
  left out.
\<close>

record AppComponent =
  sessionActive :: bool
  sessionStartTime :: "int option"
  selectedSubject :: jsstring
  isSummaryModalVisible :: bool
  aiReportContent :: jsstring
  teachingModes :: "TeachingMode list"
  teachingActions :: "TeachingAction list"
  logs :: "LogEntry list"
  qualitativeNote :: jsstring
  engagementLevel :: level
  engagementValue :: "int option"
  lastEngagementLogTime :: "int option"
  needsEngagementReminder :: bool
  modeTimer :: nat
  reminderCheck :: nat

text \<open>The state the field initializers and the first run of the effects leave.\<close>

definition initial :: AppComponent where
  "initial =
     \<lparr>sessionActive = False,
      sessionStartTime = None,
      selectedSubject = [0x570B, 0x6587],
      isSummaryModalVisible = False,
      aiReportContent = [],
      teachingModes =
        [\<lparr>mode_id = ascii ''lecture'', mode_name = [0x8B1B, 0x8FF0, 0x6559, 0x5B78],
          mode_icon = ascii ''presentation'', active = False, elapsedTime = 0\<rparr>,
         \<lparr>mode_id = ascii ''group-discussion'', mode_name = [0x5C0F, 0x7D44, 0x8A0E, 0x8AD6],
          mode_icon = ascii ''users'', active = False, elapsedTime = 0\<rparr>,
         \<lparr>mode_id = ascii ''practice'', mode_name = [0x5BE6, 0x4F5C, 0x2F, 0x6F14, 0x7B97],
          mode_icon = ascii ''edit-3'', active = False, elapsedTime = 0\<rparr>,
         \<lparr>mode_id = ascii ''digital-tool'', mode_name = [0x6578, 0x4F4D, 0x904B, 0x7528],
          mode_icon = ascii ''cpu'', active = False, elapsedTime = 0\<rparr>],
      teachingActions =
        [\<lparr>action_id = ascii ''praise'', action_name = [0x6B63, 0x5411, 0x9F13, 0x52F5],
          action_icon = ascii ''thumbs-up'', count = 0\<rparr>,
         \<lparr>action_id = ascii ''correction'', action_name = [0x7CFE, 0x6B63, 0x898F, 0x7BC4],
          action_icon = ascii ''alert-triangle'', count = 0\<rparr>,
         \<lparr>action_id = ascii ''open-question'', action_name = [0x958B, 0x653E, 0x63D0, 0x554F],
          action_icon = ascii ''message-circle'', count = 0\<rparr>,
         \<lparr>action_id = ascii ''closed-question'', action_name = [0x5C01, 0x9589, 0x63D0, 0x554F],
          action_icon = ascii ''help-circle'', count = 0\<rparr>,
         \<lparr>action_id = ascii ''patrol'', action_name = [0x5DE1, 0x8996, 0x8D70, 0x52D5],
          action_icon = ascii ''walk'', count = 0\<rparr>],
      logs = [],
      qualitativeNote = [],
      engagementLevel = Medium,
      engagementValue = Some 50,
      lastEngagementLogTime = None,
      needsEngagementReminder = False,
      modeTimer = 0,
      reminderCheck = 0\<rparr>"

subsection \<open>The effects of the constructor\<close>

text \<open>The callback of the interval of the second effect.\<close>

definition modeTimerCallback :: "AppComponent \<Rightarrow> AppComponent" where
  "modeTimerCallback st =
     st\<lparr>teachingModes :=
          map (\<lambda>m. if active m then m\<lparr>elapsedTime := elapsedTime m + 1\<rparr> else m)
            (teachingModes st)\<rparr>"

text \<open>
  \<open>lastLogTime || sessionStart || now\<close>: \<open>null\<close> and \<open>0\<close> are falsy, and the last
  operand is the value when the others are.
\<close>

definition referenceTime :: "int option \<Rightarrow> int option \<Rightarrow> int \<Rightarrow> int" where
  "referenceTime lastLogTime sessionStart now =
     (if lastLogTime \<noteq> None \<and> lastLogTime \<noteq> Some 0 then the lastLogTime
      else if sessionStart \<noteq> None \<and> sessionStart \<noteq> Some 0 then the sessionStart
      else now)"

text \<open>The callback of the interval of the third effect, run at time \<open>now\<close>.\<close>

definition reminderCheckCallback :: "int \<Rightarrow> AppComponent \<Rightarrow> AppComponent" where
  "reminderCheckCallback now st =
     (let timeSinceLastAction =
            now - referenceTime (lastEngagementLogTime st) (sessionStartTime st) now
      in if timeSinceLastAction > 5 * 60 * 1000 then st\<lparr>needsEngagementReminder := True\<rparr>
         else st\<lparr>needsEngagementReminder := False\<rparr>)"

text \<open>
  A run of the second and of the third effect. Each reads \<open>sessionActive\<close> only, so
  each runs again when that signal has changed, and registers one more interval when
  the session is active. No interval is ever cleared: the function with the
  \<open>clearInterval\<close> call is the value the effect function returns, and \<open>effect()\<close>
  discards that value (a cleanup has to be handed to the \<open>onCleanup\<close> argument, which
  the effect functions do not take).
\<close>

definition modeTimerEffect :: "AppComponent \<Rightarrow> AppComponent" where
  "modeTimerEffect st =
     (if sessionActive st then st\<lparr>modeTimer := Suc (modeTimer st)\<rparr> else st)"

definition reminderEffect :: "AppComponent \<Rightarrow> AppComponent" where
  "reminderEffect st =
     (if sessionActive st then st\<lparr>reminderCheck := Suc (reminderCheck st)\<rparr>
      else st\<lparr>needsEngagementReminder := False\<rparr>)"

definition flushEffects :: "bool \<Rightarrow> AppComponent \<Rightarrow> AppComponent" where
  "flushEffects was st =
     (if sessionActive st \<noteq> was then reminderEffect (modeTimerEffect st) else st)"

subsection \<open>The methods\<close>

definition addLog :: "jsstring \<Rightarrow> entry_type \<Rightarrow> int \<Rightarrow> AppComponent \<Rightarrow> AppComponent" where
  "addLog msg ty now st =
     st\<lparr>logs := take 100 (\<lparr>timestamp = now, message = msg, entry_type = ty\<rparr> # logs st)\<rparr>"

text \<open>
  \<open>toggleSession\<close> reads the clock once when stopping (\<open>t1\<close>, in \<open>addLog\<close>) and
  twice when starting (\<open>t1\<close> for the start time, \<open>t2\<close> in \<open>addLog\<close>).
\<close>

definition toggleSession :: "int \<Rightarrow> int \<Rightarrow> AppComponent \<Rightarrow> AppComponent" where
  "toggleSession t1 t2 st =
     (if sessionActive st then
        (addLog [0x89C0, 0x8AB2, 0x7D50, 0x675F] Session t1 (st\<lparr>sessionActive := False\<rparr>))
          \<lparr>isSummaryModalVisible := True\<rparr>
      else
        addLog ([0x89C0, 0x8AB2, 0x958B, 0x59CB, 0x20, 0x2D, 0x20, 0x79D1, 0x76EE, 0x3A, 0x20]
                  @ selectedSubject st) Session t2
          (st\<lparr>logs := [],
              teachingModes :=
                map (\<lambda>m. m\<lparr>active := False, elapsedTime := 0\<rparr>) (teachingModes st),
              teachingActions := map (\<lambda>a. a\<lparr>count := 0\<rparr>) (teachingActions st),
              qualitativeNote := [],
              aiReportContent := [],
              engagementValue := Some 50,
              lastEngagementLogTime := None,
              needsEngagementReminder := False,
              sessionActive := True,
              sessionStartTime := Some t1\<rparr>))"

text \<open>
  The template passes an element of \<open>teachingModes\<close> (of \<open>teachingActions\<close>), named
  here by its position \<open>i\<close>; a position outside the list stands for no call.
\<close>

definition toggleTeachingMode :: "nat \<Rightarrow> int \<Rightarrow> AppComponent \<Rightarrow> AppComponent" where
  "toggleTeachingMode i now st =
     (if \<not> sessionActive st \<or> \<not> i < length (teachingModes st) then st
      else
        (let mode = (teachingModes st ! i)\<lparr>active := \<not> active (teachingModes st ! i)\<rparr>
         in addLog (mode_name mode @ [0x20]
                      @ (if active mode then [0x555F, 0x7528] else [0x505C, 0x7528]))
              Mode now (st\<lparr>teachingModes := (teachingModes st)[i := mode]\<rparr>)))"

definition recordAction :: "nat \<Rightarrow> int \<Rightarrow> AppComponent \<Rightarrow> AppComponent" where
  "recordAction i now st =
     (if \<not> sessionActive st \<or> \<not> i < length (teachingActions st) then st
      else
        (let action = (teachingActions st ! i)\<lparr>count := count (teachingActions st ! i) + 1\<rparr>
         in addLog ([0x7D00, 0x9304, 0x3A, 0x20] @ action_name action)
              Action now (st\<lparr>teachingActions := (teachingActions st)[i := action]\<rparr>)))"

text \<open>
  \<open>v\<close> is the result of \<open>parseInt\<close> on the value of the input element; a comparison
  with \<open>NaN\<close> is false. The clock is read in \<open>addLog\<close> (\<open>t1\<close>) and again for
  \<open>lastEngagementLogTime\<close> (\<open>t2\<close>).
\<close>

definition onEngagementChange ::
  "int option \<Rightarrow> int \<Rightarrow> int \<Rightarrow> AppComponent \<Rightarrow> AppComponent" where
  "onEngagementChange v t1 t2 st =
     (if \<not> sessionActive st then st
      else
        (let lv = (case v of
                     None \<Rightarrow> Low
                   | Some n \<Rightarrow> if n > 66 then High else if n > 33 then Medium else Low)
         in (addLog ([0x5B78, 0x751F, 0x5C08, 0x6CE8, 0x5EA6, 0x3A, 0x20]
                       @ (if lv = High then [0x9AD8] else if lv = Medium then [0x4E2D]
                          else [0x4F4E]))
               Engagement t1 (st\<lparr>engagementValue := v, engagementLevel := lv\<rparr>))
              \<lparr>lastEngagementLogTime := Some t2, needsEngagementReminder := False\<rparr>))"

text \<open>
  The code units \<open>String.prototype.trim\<close> removes: the white space and the line
  terminators of ECMAScript.
\<close>

definition is_space :: "16 word \<Rightarrow> bool" where
  "is_space c \<longleftrightarrow>
     (0x9 \<le> c \<and> c \<le> 0xD) \<or> c = 0x20 \<or> c = 0xA0 \<or> c = 0x1680
     \<or> (0x2000 \<le> c \<and> c \<le> 0x200A) \<or> c = 0x2028 \<or> c = 0x2029 \<or> c = 0x202F
     \<or> c = 0x205F \<or> c = 0x3000 \<or> c = 0xFEFF"

definition trim :: "jsstring \<Rightarrow> jsstring" where
  "trim s = rev (dropWhile is_space (rev (dropWhile is_space s)))"

definition submitQualitativeNote :: "int \<Rightarrow> AppComponent \<Rightarrow> AppComponent" where
  "submitQualitativeNote now st =
     (if \<not> sessionActive st \<or> trim (qualitativeNote st) = [] then st
      else
        (addLog ([0x8CEA, 0x6027, 0x7D00, 0x9304, 0x3A, 0x20] @ qualitativeNote st) Note now st)
          \<lparr>qualitativeNote := []\<rparr>)"

subsection \<open>Runs of the component\<close>

text \<open>\<open>fire k f\<close>: each of \<open>k\<close> live intervals with the callback \<open>f\<close> fires once.\<close>

fun fire :: "nat \<Rightarrow> ('s \<Rightarrow> 's) \<Rightarrow> 's \<Rightarrow> 's" where
  "fire 0 f st = st"
| "fire (Suc k) f st = fire k f (f st)"

text \<open>
  What can happen to the component: a call of a method from the template, an edit of
  the note field, or the passing of one period of the intervals of an effect.
  \<open>ModeTick\<close> is one second passing: every live interval of the second effect fires
  its callback once. \<open>ReminderCheck now\<close> is one poll period ending at time \<open>now\<close>:
  every live interval of the third effect fires its callback once. Neither callback
  tests \<open>sessionActive\<close>, so the intervals also fire while the session is inactive.
  The effects run after each operation, before anything else happens.
\<close>

datatype op =
    ToggleSession int int
  | ToggleTeachingMode nat int
  | RecordAction nat int
  | EngagementChange "int option" int int
  | SubmitQualitativeNote int
  | SetQualitativeNote jsstring
  | ModeTick
  | ReminderCheck int

fun perform :: "op \<Rightarrow> AppComponent \<Rightarrow> AppComponent" where
  "perform (ToggleSession t1 t2) st = toggleSession t1 t2 st"
| "perform (ToggleTeachingMode i t) st = toggleTeachingMode i t st"
| "perform (RecordAction i t) st = recordAction i t st"
| "perform (EngagementChange v t1 t2) st = onEngagementChange v t1 t2 st"
| "perform (SubmitQualitativeNote t) st = submitQualitativeNote t st"
| "perform (SetQualitativeNote s) st = st\<lparr>qualitativeNote := s\<rparr>"
| "perform ModeTick st = fire (modeTimer st) modeTimerCallback st"
| "perform (ReminderCheck now) st = fire (reminderCheck st) (reminderCheckCallback now) st"

definition step :: "op \<Rightarrow> AppComponent \<Rightarrow> AppComponent" where
  "step e st = flushEffects (sessionActive st) (perform e st)"

fun run :: "op list \<Rightarrow> AppComponent \<Rightarrow> AppComponent" where
  "run [] st = st"
| "run (e # es) st = run es (step e st)"

text \<open>The states the component can be in.\<close>

inductive reachable :: "AppComponent \<Rightarrow> bool" where
  reachable_initial: "reachable initial"
| reachable_step: "reachable st \<Longrightarrow> reachable (step e st)"

text \<open>The four calls that are guarded by \<open>sessionActive\<close>.\<close>

fun guarded_call :: "op \<Rightarrow> bool" where
  "guarded_call (ToggleTeachingMode i t) = True"
| "guarded_call (RecordAction i t) = True"
| "guarded_call (EngagementChange v t1 t2) = True"
| "guarded_call (SubmitQualitativeNote t) = True"
| "guarded_call e = False"

fun is_toggle_session :: "op \<Rightarrow> bool" where
  "is_toggle_session (ToggleSession t1 t2) = True"
| "is_toggle_session e = False"

text \<open>
  The number of ticks (seconds) of a run at which the mode at position \<open>i\<close> was active
  when the tick arrived.
\<close>

fun active_ticks :: "nat \<Rightarrow> op list \<Rightarrow> AppComponent \<Rightarrow> nat" where
  "active_ticks i [] st = 0"
| "active_ticks i (e # es) st =
     (if e = ModeTick \<and> active (teachingModes st ! i) then 1 else 0)
       + active_ticks i es (step e st)"

text \<open>Sample runs.\<close>

definition started_example :: AppComponent where
  "started_example = step (ToggleSession 1000 1001) initial"

definition stopped_example :: AppComponent where
  "stopped_example = run [ToggleSession 1000 1001, ToggleSession 2000 2000] initial"

definition restart_example :: "op list" where
  "restart_example =
     [ToggleSession 1000 1001, EngagementChange (Some 80) 2000 2001,
      ToggleSession 3000 3000, ToggleSession 4000 4001]"

definition restarted_example :: AppComponent where
  "restarted_example =
     run [ToggleSession 1000 1001, ToggleSession 2000 2000, ToggleSession 3000 3001] initial"

definition second_session_ops :: "op list" where
  "second_session_ops = [ToggleTeachingMode 0 3500, ModeTick]"

definition blank_note_state :: AppComponent where
  "blank_note_state =
     run [ToggleSession 1000 1001, SetQualitativeNote [0x20, 0x3000, 0x9]] initial"

section \<open>Properties of GeminiService\<close>

subsection \<open>Unrolling the retry loop\<close>

declare fetch_loop.simps [simp del]

lemma fetch_loop_step:
  "a < n \<Longrightarrow>
   fetch_loop net key body n a =
     (case try_block (net a) n a of
        Inr t \<Rightarrow> (Inr (Some t), [Fetch key body])
      | Inl e \<Rightarrow>
          if Suc a \<ge> n then (Inl e, [Fetch key body])
          else (fst (fetch_loop net key body n (Suc a)),
                Fetch key body # Delay (2 ^ Suc a * 1000) # snd (fetch_loop net key body n (Suc a))))"
  by (subst fetch_loop.simps) (simp split: sum.splits prod.splits)

lemma fetch_loop_done: "\<not> a < n \<Longrightarrow> fetch_loop net key body n a = (Inr None, [])"
  by (subst fetch_loop.simps) simp

lemma fetch_loop_3:
  "fetch_loop net key body 3 0 =
     (case try_block (net 0) 3 0 of
        Inr t \<Rightarrow> (Inr (Some t), [Fetch key body])
      | Inl e1 \<Rightarrow>
          (case try_block (net 1) 3 1 of
             Inr t \<Rightarrow> (Inr (Some t), [Fetch key body, Delay 2000, Fetch key body])
           | Inl e2 \<Rightarrow>
               (case try_block (net 2) 3 2 of
                  Inr t \<Rightarrow>
                    (Inr (Some t),
                     [Fetch key body, Delay 2000, Fetch key body, Delay 4000, Fetch key body])
                | Inl e3 \<Rightarrow>
                    (Inl e3,
                     [Fetch key body, Delay 2000, Fetch key body, Delay 4000, Fetch key body]))))"
proof -
  have two: "Suc (Suc 0) = 2" by simp
  have l2: "fetch_loop net key body 3 2 =
      (case try_block (net 2) 3 2 of
         Inr t \<Rightarrow> (Inr (Some t), [Fetch key body])
       | Inl e \<Rightarrow> (Inl e, [Fetch key body]))"
    by (subst fetch_loop_step) (simp_all split: sum.splits)
  have l1: "fetch_loop net key body 3 (Suc 0) =
      (case try_block (net (Suc 0)) 3 (Suc 0) of
         Inr t \<Rightarrow> (Inr (Some t), [Fetch key body])
       | Inl e \<Rightarrow> (fst (fetch_loop net key body 3 2),
                    Fetch key body # Delay 4000 # snd (fetch_loop net key body 3 2)))"
    by (subst fetch_loop_step) (simp_all add: two split: sum.splits)
  have l0: "fetch_loop net key body 3 0 =
      (case try_block (net 0) 3 0 of
         Inr t \<Rightarrow> (Inr (Some t), [Fetch key body])
       | Inl e \<Rightarrow> (fst (fetch_loop net key body 3 (Suc 0)),
                    Fetch key body # Delay 2000 # snd (fetch_loop net key body 3 (Suc 0))))"
    by (subst fetch_loop_step) (simp_all split: sum.splits)
  show ?thesis by (simp add: l0 l1 l2 split: sum.splits)
qed

text \<open>For every bound: no more requests than the bound, and the waits double from 2 s.\<close>

lemma fetch_loop_attempts:
  "attempts (snd (fetch_loop net key body n a)) \<le> n - a"
proof (induction "n - a" arbitrary: a)
  case 0
  then show ?case by (simp add: fetch_loop_done)
next
  case (Suc d)
  then have lt: "a < n" and d: "d = n - Suc a" by simp_all
  have "attempts (snd (fetch_loop net key body n (Suc a))) \<le> n - Suc a"
    using d by (rule Suc.hyps(1))
  then show ?case using lt
    by (auto simp add: fetch_loop_step [OF lt] split: sum.splits)
qed

lemma fetch_loop_delays:
  "delays (snd (fetch_loop net key body n a))
     = map (\<lambda>k. 2 ^ k * 1000) [Suc a ..< a + attempts (snd (fetch_loop net key body n a))]"
proof (induction "n - a" arbitrary: a)
  case 0
  then show ?case by (simp add: fetch_loop_done)
next
  case (Suc d)
  then have lt: "a < n" and d: "d = n - Suc a" by simp_all
  have ih: "delays (snd (fetch_loop net key body n (Suc a)))
     = map (\<lambda>k. 2 ^ k * 1000)
         [Suc (Suc a) ..< Suc a + attempts (snd (fetch_loop net key body n (Suc a)))]"
    using d by (rule Suc.hyps(1))
  have pos: "Suc a < n \<Longrightarrow> 0 < attempts (snd (fetch_loop net key body n (Suc a)))"
    by (simp add: fetch_loop_step [of "Suc a" n] split: sum.splits)
  show ?case using lt ih pos
    by (auto simp add: fetch_loop_step [OF lt] upt_rec [of "Suc a"] split: sum.splits)
qed

lemma fetch_loop_requests:
  "e \<in> set (snd (fetch_loop net key body n a)) \<Longrightarrow> e = Fetch key body \<or> (\<exists>d. e = Delay d)"
proof (induction "n - a" arbitrary: a)
  case 0
  then show ?case by (simp add: fetch_loop_done)
next
  case (Suc d)
  then have lt: "a < n" and d: "d = n - Suc a" by simp_all
  show ?case using Suc.hyps(1) [OF d] Suc.prems lt
    by (auto simp add: fetch_loop_step [OF lt] split: sum.splits if_splits)
qed

lemma three_attempt_backoff_loop:
  "three_attempt_backoff net (Fetch key body)
     (fst (fetch_loop net key body 3 0), snd (fetch_loop net key body 3 0), s)"
  by (simp add: three_attempt_backoff_def fetch_loop_3 Let_def split: sum.splits)

lemma fetchWithRetry_key:
  "getApiKey now env s = (Inr k, s') \<Longrightarrow>
   fetchWithRetry now env net body n s =
     (fst (fetch_loop net (key_text k) body n 0), snd (fetch_loop net (key_text k) body n 0), s')"
  by (simp add: fetchWithRetry_def split: prod.splits)

lemma try_block_server_error: "server_error out \<Longrightarrow> isl (try_block out n a)"
  by (auto simp add: server_error_def try_block_def
      split: fetch_outcome.splits option.splits jsonval.splits)

lemma try_block_missing_text: "missing_text out \<Longrightarrow> try_block out n a = Inl ParseFailure"
  by (auto simp add: missing_text_def try_block_def
      split: fetch_outcome.splits option.splits jsonval.splits)

lemma try_block_success_text: "success_text out t \<Longrightarrow> try_block out n a = Inr t"
  by (auto simp add: success_text_def try_block_def
      split: fetch_outcome.splits option.splits jsonval.splits)

lemmas response_defs =
  text_response_def empty_candidates_response_def server_error_response_def
  not_found_response_def two_failures_then_text_def

lemma stored_service_key:
  "getApiKey 1000 Unreadable stored_service
     = (Inr (Some (ascii ''KEY'')), stored_service\<lparr>apiKey := Some (ascii ''KEY'')\<rparr>)"
  by (simp add: getApiKey_def loadApiKey_def stored_service_def API_KEY_EXPIRATION_MS_def
      ascii_def)

subsection \<open>Bounded retry with exponential backoff\<close>

lemma fetchWithRetry_attempts:
  "attempts (fst (snd (fetchWithRetry now env net body n s))) \<le> n"
proof (cases "getApiKey now env s")
  case (Pair r s')
  show ?thesis
  proof (cases r)
    case (Inl e)
    then show ?thesis using Pair by (simp add: fetchWithRetry_def)
  next
    case (Inr k)
    then show ?thesis
      using Pair fetch_loop_attempts [of net "key_text k" body n 0]
      by (simp add: fetchWithRetry_key)
  qed
qed

text \<open>
  Claim C1. A call makes at most 3 requests. Once the key is resolved, a call of
  \<open>polishText\<close> or of \<open>generateReport\<close> returns at the first attempt that succeeds; a
  failing attempt \<open>k < 3\<close> is followed by a wait of exactly \<open>2 ^ k * 1000\<close> ms (2 s,
  then 4 s) and by attempt \<open>k + 1\<close>; when the third attempt fails, its error is the
  error of the call. In particular, an endpoint that answers 5xx twice and then with a
  text yields that text after exactly 3 requests and the waits 2000 ms and 4000 ms.
\<close>

theorem three_attempts_with_backoff:
  "attempts (fst (snd (fetchWithRetry now env net body 3 s))) \<le> 3
   \<and> (getApiKey now env s = (Inr k, s') \<longrightarrow>
        three_attempt_backoff net
          (Fetch (key_text k)
             \<lparr>contents = PolishPrompt noteText, temperature = 5 / 10, maxOutputTokens = 256\<rparr>)
          (polishText now env net noteText s)
        \<and> three_attempt_backoff net
          (Fetch (key_text k)
             \<lparr>contents = ReportPrompt logData, temperature = 7 / 10, maxOutputTokens = 2048\<rparr>)
          (generateReport now env net logData s)
        \<and> (server_error (net 0) \<and> server_error (net 1) \<and> success_text (net 2) t \<longrightarrow>
             fst (fetchWithRetry now env net body 3 s) = Inr (Some t)
             \<and> fst (snd (fetchWithRetry now env net body 3 s))
                 = [Fetch (key_text k) body, Delay 2000, Fetch (key_text k) body, Delay 4000,
                    Fetch (key_text k) body]))"
proof (intro conjI impI)
  show "attempts (fst (snd (fetchWithRetry now env net body 3 s))) \<le> 3"
    by (rule fetchWithRetry_attempts)
next
  assume key: "getApiKey now env s = (Inr k, s')"
  show "three_attempt_backoff net
          (Fetch (key_text k)
             \<lparr>contents = PolishPrompt noteText, temperature = 5 / 10, maxOutputTokens = 256\<rparr>)
          (polishText now env net noteText s)"
    by (simp add: polishText_def fetchWithRetry_key [OF key] three_attempt_backoff_loop)
  show "three_attempt_backoff net
          (Fetch (key_text k)
             \<lparr>contents = ReportPrompt logData, temperature = 7 / 10, maxOutputTokens = 2048\<rparr>)
          (generateReport now env net logData s)"
    by (simp add: generateReport_def fetchWithRetry_key [OF key] three_attempt_backoff_loop)
  assume net: "server_error (net 0) \<and> server_error (net 1) \<and> success_text (net 2) t"
  have loop: "fetch_loop net (key_text k) body 3 0
          = (Inr (Some t),
             [Fetch (key_text k) body, Delay 2000, Fetch (key_text k) body, Delay 4000,
              Fetch (key_text k) body])"
    using net try_block_server_error [of "net 0" 3 0] try_block_server_error [of "net 1" 3 1]
      try_block_success_text [of "net 2" t 3 2]
    by (auto simp add: fetch_loop_3 split: sum.splits)
  show "fst (fetchWithRetry now env net body 3 s) = Inr (Some t)"
    by (simp add: fetchWithRetry_key [OF key] loop)
  show "fst (snd (fetchWithRetry now env net body 3 s))
          = [Fetch (key_text k) body, Delay 2000, Fetch (key_text k) body, Delay 4000,
             Fetch (key_text k) body]"
    by (simp add: fetchWithRetry_key [OF key] loop)
qed

theorem three_attempts_with_backoff_witness:
  "getApiKey 1000 Unreadable stored_service
     = (Inr (Some (ascii ''KEY'')), stored_service\<lparr>apiKey := Some (ascii ''KEY'')\<rparr>)
   \<and> server_error (two_failures_then_text 0) \<and> server_error (two_failures_then_text 1)
   \<and> success_text (two_failures_then_text 2) (JStr (ascii ''hi''))
   \<and> fst (fetchWithRetry 1000 Unreadable two_failures_then_text () 3 stored_service)
       = Inr (Some (JStr (ascii ''hi'')))
   \<and> fst (snd (fetchWithRetry 1000 Unreadable two_failures_then_text () 3 stored_service))
       = [Fetch (ascii ''KEY'') (), Delay 2000, Fetch (ascii ''KEY'') (), Delay 4000,
          Fetch (ascii ''KEY'') ()]
   \<and> attempts (fst (snd (fetchWithRetry 1000 Unreadable two_failures_then_text () 3
         stored_service))) = 3"
proof -
  have a: "server_error (two_failures_then_text 0) \<and> server_error (two_failures_then_text 1)
      \<and> success_text (two_failures_then_text 2) (JStr (ascii ''hi''))"
    by (simp add: server_error_def success_text_def response_defs response_text_def ascii_def)
  note T = three_attempts_with_backoff [where now = 1000 and env = Unreadable
      and s = stored_service and net = two_failures_then_text and body = "()"
      and k = "Some (ascii ''KEY'')" and s' = "stored_service\<lparr>apiKey := Some (ascii ''KEY'')\<rparr>"
      and t = "JStr (ascii ''hi'')" and noteText = "[]" and logData = "()"]
  note U = T [THEN conjunct2, THEN mp, OF stored_service_key,
      THEN conjunct2, THEN conjunct2, THEN mp, OF a]
  have r: "fst (fetchWithRetry 1000 Unreadable two_failures_then_text () 3 stored_service)
       = Inr (Some (JStr (ascii ''hi'')))"
    using U [THEN conjunct1] .
  have tr: "fst (snd (fetchWithRetry 1000 Unreadable two_failures_then_text () 3 stored_service))
       = [Fetch (ascii ''KEY'') (), Delay 2000, Fetch (ascii ''KEY'') (), Delay 4000,
          Fetch (ascii ''KEY'') ()]"
    using U [THEN conjunct2] by (simp add: key_text_def)
  show ?thesis using a stored_service_key r tr by simp
qed

subsection \<open>A response that is neither a success nor a 5xx\<close>

text \<open>
  Every error thrown inside the \<open>try\<close> block is caught by the same \<open>catch\<close> block:
  a non-success response below 500 at the first attempt is followed by the wait and by a
  second request.
\<close>

lemma client_error_then_delay:
  assumes "net 0 = Responded r" and "\<not> ok r" and "status r < 500"
  shows "\<exists>tr. snd (fetch_loop net key body 3 0)
               = Fetch key body # Delay 2000 # Fetch key body # tr"
proof -
  have "isl (try_block (net 0) 3 0)"
    using assms by (auto simp add: try_block_def split: option.splits jsonval.splits)
  then show ?thesis by (auto simp add: fetch_loop_3 split: sum.splits)
qed

text \<open>
  Claim C2, evaluated on the code. The endpoint answers every request with status 404
  and the payload \<open>{error: {message: "bad"}}\<close>. The call does not fail at once: it
  makes 3 requests, waits 2000 ms and 4000 ms between them, and only then fails with
  the message of the payload.
\<close>

theorem client_error_retried:
  "fetchWithRetry 1000 Unreadable (\<lambda>k. Responded not_found_response) () 3 stored_service
     = (Inl (ApiError (JStr (ascii ''bad''))),
        [Fetch (ascii ''KEY'') (), Delay 2000, Fetch (ascii ''KEY'') (), Delay 4000,
         Fetch (ascii ''KEY'') ()],
        stored_service\<lparr>apiKey := Some (ascii ''KEY'')\<rparr>)"
  by (simp add: fetchWithRetry_key [OF stored_service_key] fetch_loop_3 try_block_def
      not_found_response_def key_text_def ascii_def)

subsection \<open>Resolving the key\<close>

lemma getApiKey_raises_iff:
  "fst (getApiKey now env s) = Inl e \<longleftrightarrow>
     e = MissingCredential \<and> env = Unreadable
     \<and> (apiKey (loadApiKey now s) = None \<or> apiKey (loadApiKey now s) = Some [])"
  by (auto simp add: getApiKey_def Let_def split: process_env.splits)

text \<open>When \<open>getApiKey\<close> raises, the call ends with that error before any request.\<close>

lemma missing_credential_no_request:
  "fst (getApiKey now env s) = Inl e \<Longrightarrow>
   fst (fetchWithRetry now env net body n s) = Inl e
   \<and> fst (snd (fetchWithRetry now env net body n s)) = []"
  by (cases "getApiKey now env s") (auto simp add: fetchWithRetry_def)

text \<open>The key is read once, before the loop, and every request of the call carries it.\<close>

lemma key_resolved_once:
  assumes "getApiKey now env s = (Inr k, s')"
    and "ev \<in> set (fst (snd (fetchWithRetry now env net body n s)))"
  shows "ev = Fetch (key_text k) body \<or> (\<exists>d. ev = Delay d)"
  using assms fetch_loop_requests [of ev net "key_text k" body n 0]
  by (simp add: fetchWithRetry_key [OF assms(1)])

text \<open>
  Claim C8, evaluated on the code. No key is stored, and \<open>process.env.API_KEY\<close> can be
  read but is not set. \<open>getApiKey\<close> does not raise: it returns \<open>undefined\<close>, and the
  call sends a request whose URL ends in \<open>key=undefined\<close>, here answered with a text.
\<close>

theorem undefined_key_request:
  "fetchWithRetry 1000 (Readable None) (\<lambda>k. Responded text_response) () 3 no_key_service
     = (Inr (Some (JStr (ascii ''hi''))), [Fetch (ascii ''undefined'') ()], no_key_service)"
  by (simp add: fetchWithRetry_def getApiKey_def loadApiKey_def no_key_service_def
      fetch_loop_3 try_block_def text_response_def response_text_def key_text_def ascii_def)

subsection \<open>A success response without the text field\<close>

lemma same_outcome_refl: "same_outcome p p"
  by (simp add: same_outcome_def)

lemma same_outcome_errors: "same_outcome (Inl e, tr) (Inl e', tr)"
  by (simp add: same_outcome_def)

lemma same_outcome_later:
  "same_outcome p q \<Longrightarrow> same_outcome (fst p, x # y # snd p) (fst q, x # y # snd q)"
  by (cases p; cases q) (auto simp add: same_outcome_def)

lemma same_schedule:
  assumes "\<forall>k. net' k = net k \<or> (missing_text (net k) \<and> server_error (net' k))"
  shows "same_outcome (fetch_loop net key body n a) (fetch_loop net' key body n a)"
proof (induction "n - a" arbitrary: a)
  case 0
  then show ?case by (simp add: fetch_loop_done same_outcome_refl)
next
  case (Suc d)
  then have lt: "a < n" and d: "d = n - Suc a" by simp_all
  let ?F = "Fetch key body" and ?D = "Delay (2 ^ Suc a * 1000)"
  have later: "same_outcome
      (fst (fetch_loop net key body n (Suc a)), ?F # ?D # snd (fetch_loop net key body n (Suc a)))
      (fst (fetch_loop net' key body n (Suc a)), ?F # ?D # snd (fetch_loop net' key body n (Suc a)))"
    using Suc.hyps(1) [OF d] by (rule same_outcome_later)
  from assms have "net' a = net a \<or> (missing_text (net a) \<and> server_error (net' a))"
    by (rule spec)
  then show ?case
  proof
    assume same: "net' a = net a"
    show ?thesis
    proof (cases "try_block (net a) n a")
      case (Inr t)
      then show ?thesis by (simp add: fetch_loop_step [OF lt] same same_outcome_refl)
    next
      case (Inl e)
      then show ?thesis using later
        by (simp add: fetch_loop_step [OF lt] same same_outcome_refl)
    qed
  next
    assume h: "missing_text (net a) \<and> server_error (net' a)"
    then have p: "try_block (net a) n a = Inl ParseFailure" by (simp add: try_block_missing_text)
    obtain e where q: "try_block (net' a) n a = Inl e"
      using h try_block_server_error [of "net' a" n a] by (cases "try_block (net' a) n a") auto
    show ?thesis using later
      by (simp add: fetch_loop_step [OF lt] p q same_outcome_errors)
  qed
qed

text \<open>
  Claim C9. A success response whose body has no text field is treated by the retry
  loop like a 5xx response. For every bound \<open>n\<close>: an endpoint \<open>net\<close> and the endpoint
  \<open>net'\<close> that answers 5xx wherever \<open>net\<close> answers without the text field make the
  same requests and waits and end alike; such a response at attempt \<open>a\<close> with attempts
  left is followed by the wait \<open>2 ^ (a + 1) * 1000\<close> ms and the next attempt; and when
  all three attempts of the default bound get such a response, the parse-failure error
  is the error of the call, after the waits of 2000 ms and 4000 ms.
\<close>

theorem missing_text_retried:
  assumes "\<forall>k. net' k = net k \<or> (missing_text (net k) \<and> server_error (net' k))"
  shows "same_outcome (fetch_loop net key body n 0) (fetch_loop net' key body n 0)
         \<and> (missing_text (net a) \<and> Suc a < n \<longrightarrow>
              fetch_loop net key body n a
                = (fst (fetch_loop net key body n (Suc a)),
                   Fetch key body # Delay (2 ^ Suc a * 1000)
                     # snd (fetch_loop net key body n (Suc a))))
         \<and> ((\<forall>k < 3. missing_text (net k)) \<longrightarrow>
              fetch_loop net key body 3 0
                = (Inl ParseFailure,
                   [Fetch key body, Delay 2000, Fetch key body, Delay 4000, Fetch key body]))"
proof -
  have step: "missing_text (net a) \<and> Suc a < n \<longrightarrow>
              fetch_loop net key body n a
                = (fst (fetch_loop net key body n (Suc a)),
                   Fetch key body # Delay (2 ^ Suc a * 1000)
                     # snd (fetch_loop net key body n (Suc a)))"
  proof
    assume h: "missing_text (net a) \<and> Suc a < n"
    then have lt: "a < n" by simp
    show "fetch_loop net key body n a
                = (fst (fetch_loop net key body n (Suc a)),
                   Fetch key body # Delay (2 ^ Suc a * 1000)
                     # snd (fetch_loop net key body n (Suc a)))"
      using h by (simp add: fetch_loop_step [OF lt] try_block_missing_text)
  qed
  have all: "(\<forall>k < 3. missing_text (net k)) \<longrightarrow>
              fetch_loop net key body 3 0
                = (Inl ParseFailure,
                   [Fetch key body, Delay 2000, Fetch key body, Delay 4000, Fetch key body])"
  proof
    assume h: "\<forall>k < 3. missing_text (net k)"
    have "missing_text (net 0)" "missing_text (net 1)" "missing_text (net 2)"
      using h by simp_all
    then show "fetch_loop net key body 3 0
                = (Inl ParseFailure,
                   [Fetch key body, Delay 2000, Fetch key body, Delay 4000, Fetch key body])"
      by (simp add: fetch_loop_3 try_block_missing_text)
  qed
  show ?thesis
    using same_schedule [OF assms, of key body n 0] step all by (intro conjI)
qed

theorem missing_text_retried_witness:
  "missing_text (Responded empty_candidates_response)
   \<and> server_error (Responded server_error_response)
   \<and> fetch_loop (\<lambda>k. Responded empty_candidates_response) (ascii ''KEY'') () 3 0
       = (Inl ParseFailure,
          [Fetch (ascii ''KEY'') (), Delay 2000, Fetch (ascii ''KEY'') (), Delay 4000,
           Fetch (ascii ''KEY'') ()])
   \<and> snd (fetch_loop (\<lambda>k. Responded server_error_response) (ascii ''KEY'') () 3 0)
       = [Fetch (ascii ''KEY'') (), Delay 2000, Fetch (ascii ''KEY'') (), Delay 4000,
          Fetch (ascii ''KEY'') ()]
   \<and> isl (fst (fetch_loop (\<lambda>k. Responded server_error_response) (ascii ''KEY'') () 3 0))"
proof -
  have a: "missing_text (Responded empty_candidates_response)"
    by (simp add: missing_text_def empty_candidates_response_def response_text_def ascii_def)
  have b: "server_error (Responded server_error_response)"
    by (simp add: server_error_def server_error_response_def)
  have c: "\<forall>k. (\<lambda>k. Responded server_error_response) k = (\<lambda>k. Responded empty_candidates_response) k
        \<or> (missing_text ((\<lambda>k. Responded empty_candidates_response) k)
           \<and> server_error ((\<lambda>k. Responded server_error_response) k))"
    using a b by simp
  note T = missing_text_retried [OF c, where key = "ascii ''KEY''" and body = "()" and n = 3
      and a = 1]
  have d: "\<forall>k < 3. missing_text (Responded empty_candidates_response)"
    using a by simp
  have e1: "fetch_loop (\<lambda>k. Responded empty_candidates_response) (ascii ''KEY'') () 3 0
       = (Inl ParseFailure,
          [Fetch (ascii ''KEY'') (), Delay 2000, Fetch (ascii ''KEY'') (), Delay 4000,
           Fetch (ascii ''KEY'') ()])"
    using T [THEN conjunct2, THEN conjunct2, THEN mp, OF d] .
  have e2: "same_outcome
       (fetch_loop (\<lambda>k. Responded empty_candidates_response) (ascii ''KEY'') () 3 0)
       (fetch_loop (\<lambda>k. Responded server_error_response) (ascii ''KEY'') () 3 0)"
    using T [THEN conjunct1] .
  have e3: "isl (fst (fetch_loop (\<lambda>k. Responded server_error_response) (ascii ''KEY'') () 3 0))"
    using e2 by (auto simp add: same_outcome_def e1 dest: sym)
  have e4: "snd (fetch_loop (\<lambda>k. Responded server_error_response) (ascii ''KEY'') () 3 0)
       = [Fetch (ascii ''KEY'') (), Delay 2000, Fetch (ascii ''KEY'') (), Delay 4000,
          Fetch (ascii ''KEY'') ()]"
    using e2 by (simp add: same_outcome_def e1)
  show ?thesis using a b e1 e3 e4 by simp
qed

section \<open>Properties of AppComponent\<close>

lemmas method_defs =
  toggleSession_def toggleTeachingMode_def recordAction_def onEngagementChange_def
  submitQualitativeNote_def addLog_def modeTimerCallback_def reminderCheckCallback_def

lemmas effect_defs = flushEffects_def reminderEffect_def modeTimerEffect_def

subsection \<open>What the steps keep\<close>

lemma fire_keeps: "(\<And>s. g (f s) = g s) \<Longrightarrow> g (fire k f st) = g st"
  by (induction k arbitrary: st) simp_all

lemma fire_mode [simp]:
  "sessionActive (fire k modeTimerCallback st) = sessionActive st"
  "sessionStartTime (fire k modeTimerCallback st) = sessionStartTime st"
  "modeTimer (fire k modeTimerCallback st) = modeTimer st"
  "reminderCheck (fire k modeTimerCallback st) = reminderCheck st"
  "length (teachingModes (fire k modeTimerCallback st)) = length (teachingModes st)"
  by (rule fire_keeps, simp add: modeTimerCallback_def)+

lemma fire_reminder [simp]:
  "sessionActive (fire k (reminderCheckCallback now) st) = sessionActive st"
  "sessionStartTime (fire k (reminderCheckCallback now) st) = sessionStartTime st"
  "modeTimer (fire k (reminderCheckCallback now) st) = modeTimer st"
  "reminderCheck (fire k (reminderCheckCallback now) st) = reminderCheck st"
  "teachingModes (fire k (reminderCheckCallback now) st) = teachingModes st"
  by (rule fire_keeps, simp add: reminderCheckCallback_def)+

text \<open>The poll is idempotent: several intervals firing at one time act like one.\<close>

lemma reminderCheckCallback_idem:
  "reminderCheckCallback now (reminderCheckCallback now st) = reminderCheckCallback now st"
  by (simp add: reminderCheckCallback_def)

lemma fire_reminder_Suc:
  "fire (Suc k) (reminderCheckCallback now) st = reminderCheckCallback now st"
proof (induction k arbitrary: st)
  case 0
  show ?case by simp
next
  case (Suc k)
  have "fire (Suc (Suc k)) (reminderCheckCallback now) st
        = fire (Suc k) (reminderCheckCallback now) (reminderCheckCallback now st)"
    by simp
  also have "\<dots> = reminderCheckCallback now (reminderCheckCallback now st)"
    by (rule Suc.IH)
  finally show ?case by (simp only: reminderCheckCallback_idem)
qed

lemma length_modes_perform [simp]:
  "length (teachingModes (perform e st)) = length (teachingModes st)"
  by (cases e) (simp_all add: method_defs Let_def)

lemma modes_flush [simp]: "teachingModes (flushEffects b st) = teachingModes st"
  by (simp add: effect_defs)

lemma length_modes_step [simp]:
  "length (teachingModes (step e st)) = length (teachingModes st)"
  by (simp add: step_def)

lemma length_modes_run [simp]:
  "length (teachingModes (run es st)) = length (teachingModes st)"
  by (induction es arbitrary: st) simp_all

lemma sessionActive_flush [simp]: "sessionActive (flushEffects b st) = sessionActive st"
  by (simp add: effect_defs)

lemma startTime_flush [simp]: "sessionStartTime (flushEffects b st) = sessionStartTime st"
  by (simp add: effect_defs)

lemma sessionActive_perform:
  "\<not> is_toggle_session e \<Longrightarrow> sessionActive (perform e st) = sessionActive st"
  by (cases e) (simp_all add: method_defs Let_def)

lemma sessionActive_step:
  "\<not> is_toggle_session e \<Longrightarrow> sessionActive (step e st) = sessionActive st"
  by (simp add: step_def sessionActive_perform)

lemma sessionActive_run:
  "\<forall>e \<in> set es. \<not> is_toggle_session e \<Longrightarrow> sessionActive (run es st) = sessionActive st"
  by (induction es arbitrary: st) (simp_all add: sessionActive_step)

lemma modeTimer_perform [simp]: "modeTimer (perform e st) = modeTimer st"
  by (cases e) (simp_all add: method_defs Let_def)

lemma reminderCheck_perform [simp]: "reminderCheck (perform e st) = reminderCheck st"
  by (cases e) (simp_all add: method_defs Let_def)

lemma modeTimer_step:
  "\<not> is_toggle_session e \<Longrightarrow> modeTimer (step e st) = modeTimer st"
  by (simp add: step_def effect_defs sessionActive_perform)

lemma modeTimer_run:
  "\<forall>e \<in> set es. \<not> is_toggle_session e \<Longrightarrow> modeTimer (run es st) = modeTimer st"
  by (induction es arbitrary: st) (simp_all add: modeTimer_step)

text \<open>While the session is active, at least one interval of each effect is live.\<close>

lemma timers_step:
  assumes "sessionActive st \<longrightarrow> 0 < modeTimer st \<and> 0 < reminderCheck st"
  shows "sessionActive (step e st) \<longrightarrow> 0 < modeTimer (step e st) \<and> 0 < reminderCheck (step e st)"
  using assms by (auto simp add: step_def effect_defs)

lemma reachable_timers:
  "reachable st \<Longrightarrow> sessionActive st \<longrightarrow> 0 < modeTimer st \<and> 0 < reminderCheck st"
proof (induction rule: reachable.induct)
  case reachable_initial
  show ?case by (simp add: initial_def)
next
  case (reachable_step st e)
  from reachable_step.IH show ?case by (rule timers_step)
qed

lemma start_session:
  assumes "\<not> sessionActive pre"
  shows "sessionActive (step (ToggleSession t1 t2) pre)"
    and "modeTimer (step (ToggleSession t1 t2) pre) = Suc (modeTimer pre)"
    and "reminderCheck (step (ToggleSession t1 t2) pre) = Suc (reminderCheck pre)"
    and "sessionStartTime (step (ToggleSession t1 t2) pre) = Some t1"
    and "lastEngagementLogTime (step (ToggleSession t1 t2) pre) = None"
    and "\<not> needsEngagementReminder (step (ToggleSession t1 t2) pre)"
    and "teachingModes (step (ToggleSession t1 t2) pre)
           = map (\<lambda>m. m\<lparr>active := False, elapsedTime := 0\<rparr>) (teachingModes pre)"
  using assms by (simp_all add: step_def effect_defs toggleSession_def addLog_def)

text \<open>Stopping a session leaves its intervals live.\<close>

lemma stop_session:
  assumes "sessionActive st"
  shows "\<not> sessionActive (step (ToggleSession t1 t2) st)"
    and "modeTimer (step (ToggleSession t1 t2) st) = modeTimer st"
    and "reminderCheck (step (ToggleSession t1 t2) st) = reminderCheck st"
    and "\<not> needsEngagementReminder (step (ToggleSession t1 t2) st)"
    and "teachingModes (step (ToggleSession t1 t2) st) = teachingModes st"
  using assms by (simp_all add: step_def effect_defs toggleSession_def addLog_def)

subsection \<open>Mode timers\<close>

lemma fire_mode_elapsed:
  "i < length (teachingModes st) \<Longrightarrow>
   elapsedTime (teachingModes (fire k modeTimerCallback st) ! i)
     = elapsedTime (teachingModes st ! i) + (if active (teachingModes st ! i) then k else 0)
   \<and> active (teachingModes (fire k modeTimerCallback st) ! i) = active (teachingModes st ! i)"
proof (induction k arbitrary: st)
  case 0
  show ?case by simp
next
  case (Suc k)
  have i: "i < length (teachingModes (modeTimerCallback st))"
    using Suc.prems by (simp add: modeTimerCallback_def)
  show ?case using Suc.IH [OF i] Suc.prems by (simp add: modeTimerCallback_def)
qed

text \<open>
  One second adds to an active mode as many units as there are live intervals, whether
  or not the session is active.
\<close>

lemma elapsed_step:
  assumes "i < length (teachingModes st)" and "\<not> is_toggle_session e"
  shows "elapsedTime (teachingModes (step e st) ! i)
         = elapsedTime (teachingModes st ! i)
           + (if e = ModeTick \<and> active (teachingModes st ! i) then modeTimer st else 0)"
proof (cases e)
  case (ToggleTeachingMode j t)
  then show ?thesis using assms
    by (cases "i = j") (simp_all add: step_def toggleTeachingMode_def addLog_def Let_def)
next
  case ModeTick
  then show ?thesis using assms fire_mode_elapsed [of i st "modeTimer st"]
    by (simp add: step_def)
qed (use assms in \<open>simp_all add: step_def method_defs Let_def\<close>)

lemma elapsed_run:
  assumes "i < length (teachingModes st)" and "\<forall>e \<in> set es. \<not> is_toggle_session e"
  shows "elapsedTime (teachingModes (run es st) ! i)
         = elapsedTime (teachingModes st ! i) + modeTimer st * active_ticks i es st"
  using assms
proof (induction es arbitrary: st)
  case Nil
  then show ?case by simp
next
  case (Cons e es)
  have e: "\<not> is_toggle_session e" using Cons.prems(2) by simp
  have "elapsedTime (teachingModes (run es (step e st)) ! i)
        = elapsedTime (teachingModes (step e st) ! i)
          + modeTimer (step e st) * active_ticks i es (step e st)"
    using Cons.prems by (intro Cons.IH) simp_all
  then show ?case using elapsed_step [OF Cons.prems(1) e]
    by (simp add: modeTimer_step [OF e] algebra_simps)
qed

text \<open>In a first session (no interval is live before the start) the count is exact.\<close>

lemma first_session_counts:
  assumes "\<not> sessionActive pre" and "modeTimer pre = 0" and "i < length (teachingModes pre)"
    and "\<forall>e \<in> set es. \<not> is_toggle_session e"
  shows "elapsedTime (teachingModes (run es (step (ToggleSession t1 t2) pre)) ! i)
           = active_ticks i es (step (ToggleSession t1 t2) pre)"
proof -
  let ?st = "step (ToggleSession t1 t2) pre"
  have "elapsedTime (teachingModes (run es ?st) ! i)
        = elapsedTime (teachingModes ?st ! i) + modeTimer ?st * active_ticks i es ?st"
    using assms(3,4) by (intro elapsed_run) simp_all
  then show ?thesis using assms by (simp add: start_session)
qed

text \<open>
  After a stop the interval goes on firing: a mode left active gains elapsed time while
  the session is inactive.
\<close>

lemma stopped_session_still_ticks:
  "\<not> sessionActive
       (run [ToggleSession 1000 1001, ToggleTeachingMode 2 1500, ToggleSession 2000 2000,
             ModeTick] initial)
   \<and> elapsedTime
         (teachingModes
            (run [ToggleSession 1000 1001, ToggleTeachingMode 2 1500, ToggleSession 2000 2000,
                  ModeTick] initial) ! 2) = 1"
  by (simp add: initial_def step_def method_defs effect_defs Let_def)

lemma restarted_example_eval:
  "sessionActive restarted_example" "modeTimer restarted_example = 2"
  "elapsedTime (teachingModes restarted_example ! 0) = 0"
  by (simp_all add: restarted_example_def initial_def step_def method_defs effect_defs)

text \<open>
  Claim C3, evaluated on the code. A session is started, stopped, and a second one
  started: the interval of the first session is still live beside the new one. The
  first mode is then switched on and one second passes. The session is active, the
  mode was active at exactly one tick, and its \<open>elapsedTime\<close> is 2.
\<close>

theorem second_session_counts_twice:
  "sessionActive restarted_example
   \<and> elapsedTime (teachingModes restarted_example ! 0) = 0
   \<and> sessionActive (run second_session_ops restarted_example)
   \<and> active_ticks 0 second_session_ops restarted_example = 1
   \<and> elapsedTime (teachingModes (run second_session_ops restarted_example) ! 0) = 2"
  by (simp add: restarted_example_def second_session_ops_def initial_def step_def
      method_defs effect_defs Let_def)

subsection \<open>Starting and stopping a session\<close>

lemma start_keeps_level:
  "\<not> sessionActive st \<Longrightarrow> engagementLevel (toggleSession t1 t2 st) = engagementLevel st"
  by (simp add: toggleSession_def addLog_def)

text \<open>
  Claim C4, evaluated on the code. A session is started, the score is set to 80 (level
  high), the session is stopped and a new one is started. The start resets the value,
  the time of the last update and the reminder, but not the level: the tracker is left
  with value 50 and level high.
\<close>

theorem restart_keeps_level:
  "engagementValue (run restart_example initial) = Some 50
   \<and> engagementLevel (run restart_example initial) = High
   \<and> lastEngagementLogTime (run restart_example initial) = None
   \<and> needsEngagementReminder (run restart_example initial) = False"
  by (simp add: restart_example_def initial_def step_def method_defs effect_defs Let_def)

text \<open>
  Claim C5 as stated fails: after a session has been started and stopped, the start
  time is still set although the session is not active.
\<close>

theorem start_time_iff_active_counterexample:
  "\<not> (sessionStartTime stopped_example \<noteq> None \<longleftrightarrow> sessionActive stopped_example)"
  by (simp add: stopped_example_def initial_def step_def method_defs effect_defs)

lemma active_has_start_step:
  assumes "sessionActive st \<longrightarrow> sessionStartTime st \<noteq> None"
  shows "sessionActive (step e st) \<longrightarrow> sessionStartTime (step e st) \<noteq> None"
  using assms by (cases e) (simp_all add: step_def method_defs Let_def)

lemma reachable_active_has_start:
  "reachable st \<Longrightarrow> sessionActive st \<longrightarrow> sessionStartTime st \<noteq> None"
proof (induction rule: reachable.induct)
  case reachable_initial
  show ?case by (simp add: initial_def)
next
  case (reachable_step st e)
  from reachable_step.IH show ?case by (rule active_has_start_step)
qed

text \<open>
  Claim C5, amended. In every reachable state an active session has its start time
  set; and stopping an active session makes it inactive and keeps the start time.
\<close>

theorem active_implies_start_time:
  assumes "reachable st"
  shows "(sessionActive st \<longrightarrow> sessionStartTime st \<noteq> None)
         \<and> (sessionActive st \<longrightarrow>
              \<not> sessionActive (step (ToggleSession t1 t2) st)
              \<and> sessionStartTime (step (ToggleSession t1 t2) st) = sessionStartTime st)"
  using reachable_active_has_start [OF assms]
  by (simp add: step_def toggleSession_def addLog_def)

theorem active_implies_start_time_witness:
  "reachable started_example \<and> sessionActive started_example
   \<and> sessionStartTime started_example = Some 1000
   \<and> \<not> sessionActive (step (ToggleSession 2000 2000) started_example)
   \<and> sessionStartTime (step (ToggleSession 2000 2000) started_example) = Some 1000"
proof -
  have a: "reachable started_example"
    unfolding started_example_def by (intro reachable.intros)
  have b: "sessionActive started_example" "sessionStartTime started_example = Some 1000"
    by (simp_all add: started_example_def initial_def step_def method_defs effect_defs)
  show ?thesis using a b active_implies_start_time [OF a, of 2000 2000] by simp
qed

subsection \<open>The engagement reminder\<close>

lemma poll_step:
  "0 < reminderCheck st \<Longrightarrow> step (ReminderCheck now) st = reminderCheckCallback now st"
proof -
  assume "0 < reminderCheck st"
  then obtain k where k: "reminderCheck st = Suc k" by (cases "reminderCheck st") simp_all
  have fired: "perform (ReminderCheck now) st = reminderCheckCallback now st"
    by (simp only: perform.simps k fire_reminder_Suc)
  have "sessionActive (reminderCheckCallback now st) = sessionActive st"
    by (simp add: reminderCheckCallback_def)
  then show ?thesis unfolding step_def fired by (simp add: flushEffects_def)
qed

text \<open>
  Claim C6 as stated fails in two places. After a session started at time 1000 has been
  stopped, its poll interval is still live, and a poll at time 400000 turns the
  reminder on although the session is inactive. And with a session started when the
  clock reads 0, the start time counts as not set: the poll 301 s later leaves the
  reminder off.
\<close>

theorem reminder_poll_counterexample:
  "\<not> sessionActive
       (run [ToggleSession 1000 1001, ToggleSession 2000 2000, ReminderCheck 400000] initial)
   \<and> needsEngagementReminder
       (run [ToggleSession 1000 1001, ToggleSession 2000 2000, ReminderCheck 400000] initial)
   \<and> sessionStartTime (run [ToggleSession 0 1] initial) = Some 0
   \<and> \<not> needsEngagementReminder (run [ToggleSession 0 1, ReminderCheck (0 + 301 * 1000)] initial)"
  by (simp add: initial_def step_def method_defs effect_defs referenceTime_def)

text \<open>
  Claim C6, amended. In every reachable state with the session active, a poll at time
  \<open>now\<close> sets the reminder exactly when \<open>now\<close> minus the reference time exceeds 5
  minutes, the reference time being the time of the last score update if that is set
  and not 0, else the start time of the session if that is set and not 0, else \<open>now\<close>
  (so that the reminder is set to off); a score update clears the reminder; and
  stopping the session sets the reminder to off. With a session started at a time
  \<open>start\<close> other than 0 and no score update, a poll 299 s later leaves the reminder off
  and a poll 301 s later turns it on.
\<close>

theorem reminder_poll:
  assumes "reachable st"
  shows "(sessionActive st \<and> lastEngagementLogTime st = Some t \<and> t \<noteq> 0 \<longrightarrow>
            needsEngagementReminder (step (ReminderCheck now) st) = (now - t > 5 * 60 * 1000))
         \<and> (sessionActive st \<and> lastEngagementLogTime st \<in> {None, Some 0}
              \<and> sessionStartTime st = Some t \<and> t \<noteq> 0 \<longrightarrow>
            needsEngagementReminder (step (ReminderCheck now) st) = (now - t > 5 * 60 * 1000))
         \<and> (sessionActive st \<and> lastEngagementLogTime st \<in> {None, Some 0}
              \<and> sessionStartTime st \<in> {None, Some 0} \<longrightarrow>
            \<not> needsEngagementReminder (step (ReminderCheck now) st))
         \<and> (sessionActive st \<longrightarrow>
              \<not> needsEngagementReminder (step (EngagementChange v ta tb) st))
         \<and> (sessionActive st \<longrightarrow>
              \<not> sessionActive (step (ToggleSession ta tb) st)
              \<and> \<not> needsEngagementReminder (step (ToggleSession ta tb) st))
         \<and> (\<not> sessionActive st \<and> start \<noteq> 0 \<longrightarrow>
              \<not> needsEngagementReminder
                  (step (ReminderCheck (start + 299 * 1000)) (step (ToggleSession start tlog) st))
              \<and> needsEngagementReminder
                  (step (ReminderCheck (start + 301 * 1000)) (step (ToggleSession start tlog) st)))"
proof -
  have live: "sessionActive st \<longrightarrow> 0 < reminderCheck st"
    using reachable_timers [OF assms] by simp
  have last: "sessionActive st \<and> lastEngagementLogTime st = Some t \<and> t \<noteq> 0 \<longrightarrow>
            needsEngagementReminder (step (ReminderCheck now) st) = (now - t > 5 * 60 * 1000)"
    using live by (auto simp add: poll_step reminderCheckCallback_def referenceTime_def)
  have started: "sessionActive st \<and> lastEngagementLogTime st \<in> {None, Some 0}
              \<and> sessionStartTime st = Some t \<and> t \<noteq> 0 \<longrightarrow>
            needsEngagementReminder (step (ReminderCheck now) st) = (now - t > 5 * 60 * 1000)"
    using live by (auto simp add: poll_step reminderCheckCallback_def referenceTime_def)
  have neither: "sessionActive st \<and> lastEngagementLogTime st \<in> {None, Some 0}
              \<and> sessionStartTime st \<in> {None, Some 0} \<longrightarrow>
            \<not> needsEngagementReminder (step (ReminderCheck now) st)"
    using live by (auto simp add: poll_step reminderCheckCallback_def referenceTime_def)
  have change: "sessionActive st \<longrightarrow>
      \<not> needsEngagementReminder (step (EngagementChange v ta tb) st)"
    by (simp add: step_def onEngagementChange_def addLog_def flushEffects_def Let_def)
  have stop: "sessionActive st \<longrightarrow>
              \<not> sessionActive (step (ToggleSession ta tb) st)
              \<and> \<not> needsEngagementReminder (step (ToggleSession ta tb) st)"
    by (simp add: stop_session)
  have boundary: "\<not> sessionActive st \<and> start \<noteq> 0 \<longrightarrow>
              \<not> needsEngagementReminder
                  (step (ReminderCheck (start + 299 * 1000)) (step (ToggleSession start tlog) st))
              \<and> needsEngagementReminder
                  (step (ReminderCheck (start + 301 * 1000)) (step (ToggleSession start tlog) st))"
  proof
    assume h: "\<not> sessionActive st \<and> start \<noteq> 0"
    let ?s = "step (ToggleSession start tlog) st"
    have "0 < reminderCheck ?s" using h by (simp add: start_session)
    then show "\<not> needsEngagementReminder (step (ReminderCheck (start + 299 * 1000)) ?s)
              \<and> needsEngagementReminder (step (ReminderCheck (start + 301 * 1000)) ?s)"
      using h
      by (simp add: poll_step reminderCheckCallback_def referenceTime_def start_session)
  qed
  show ?thesis using last started neither change stop boundary by (intro conjI)
qed

theorem reminder_poll_witness:
  "reachable initial \<and> reachable started_example
   \<and> sessionActive started_example \<and> lastEngagementLogTime started_example = None
   \<and> sessionStartTime started_example = Some 1000 \<and> (1000::int) \<noteq> 0
   \<and> needsEngagementReminder (step (ReminderCheck 302000) started_example)
   \<and> \<not> needsEngagementReminder (step (ReminderCheck 300000) started_example)
   \<and> \<not> needsEngagementReminder
         (step (EngagementChange (Some 40) 303000 303001)
            (step (ReminderCheck 302000) started_example))
   \<and> \<not> needsEngagementReminder
         (step (ToggleSession 303000 303000) (step (ReminderCheck 302000) started_example))
   \<and> \<not> sessionActive initial
   \<and> \<not> needsEngagementReminder
         (step (ReminderCheck (1000 + 299 * 1000)) (step (ToggleSession 1000 1001) initial))
   \<and> needsEngagementReminder
         (step (ReminderCheck (1000 + 301 * 1000)) (step (ToggleSession 1000 1001) initial))"
proof -
  have r0: "reachable initial" by (rule reachable.intros)
  have r1: "reachable started_example"
    unfolding started_example_def by (intro reachable.intros)
  have r2: "reachable (step (ReminderCheck 302000) started_example)"
    using r1 by (rule reachable.intros)
  have e0: "\<not> sessionActive initial" by (simp add: initial_def)
  have e1: "sessionActive started_example" "lastEngagementLogTime started_example = None"
    "sessionStartTime started_example = Some 1000"
    by (simp_all add: started_example_def initial_def step_def method_defs effect_defs)
  have e2: "sessionActive (step (ReminderCheck 302000) started_example)"
    using e1 by (simp add: sessionActive_step)
  show ?thesis
    using r0 r1 e0 e1 e2 reminder_poll [OF r0, where start = 1000 and tlog = 1001]
      reminder_poll [OF r1, where now = 302000 and t = 1000]
      reminder_poll [OF r1, where now = 300000 and t = 1000]
      reminder_poll [OF r2, where v = "Some 40" and ta = 303000 and tb = 303001]
      reminder_poll [OF r2, where ta = 303000 and tb = 303000]
    by simp
qed

subsection \<open>Calls while the session is inactive\<close>

lemma guarded_call_inactive:
  "\<not> sessionActive st \<Longrightarrow> guarded_call c \<Longrightarrow> perform c st = st"
  by (cases c) (simp_all add: method_defs)

lemma step_guarded_inactive:
  "\<not> sessionActive st \<Longrightarrow> guarded_call c \<Longrightarrow> step c st = st"
  by (simp add: step_def guarded_call_inactive flushEffects_def)

text \<open>
  Claim C7. While the session is inactive, every sequence of calls of
  \<open>toggleTeachingMode\<close>, \<open>recordAction\<close>, \<open>onEngagementChange\<close> and
  \<open>submitQualitativeNote\<close> leaves the whole state as it was (timers, counters,
  engagement state and log included, so no log entry is added), and so does each call
  on its own.
\<close>

theorem inactive_calls_noop:
  assumes "\<not> sessionActive st" and "\<forall>c \<in> set cs. guarded_call c"
  shows "run cs st = st \<and> (\<forall>c \<in> set cs. perform c st = st)"
  using assms
proof (induction cs)
  case Nil
  then show ?case by simp
next
  case (Cons c cs)
  then show ?case by (simp add: step_guarded_inactive guarded_call_inactive)
qed

theorem inactive_calls_noop_witness:
  "\<not> sessionActive (initial\<lparr>qualitativeNote := ascii ''x''\<rparr>)
   \<and> list_all guarded_call
         [ToggleTeachingMode 0 1, RecordAction 0 2, EngagementChange (Some 80) 3 4,
          SubmitQualitativeNote 5]
   \<and> run [ToggleTeachingMode 0 1, RecordAction 0 2, EngagementChange (Some 80) 3 4,
           SubmitQualitativeNote 5] (initial\<lparr>qualitativeNote := ascii ''x''\<rparr>)
       = initial\<lparr>qualitativeNote := ascii ''x''\<rparr>"
proof -
  have a: "\<not> sessionActive (initial\<lparr>qualitativeNote := ascii ''x''\<rparr>)"
    by (simp add: initial_def)
  have b: "\<forall>c \<in> set [ToggleTeachingMode 0 1, RecordAction 0 2, EngagementChange (Some 80) 3 4,
                    SubmitQualitativeNote 5]. guarded_call c"
    by simp
  show ?thesis using a inactive_calls_noop [OF a b] by simp
qed

subsection \<open>Submitting a blank note\<close>

lemma all_dropWhile: "(\<forall>x \<in> set (dropWhile P xs). P x) \<longleftrightarrow> (\<forall>x \<in> set xs. P x)"
  by (induction xs) auto

lemma trim_empty_iff: "trim s = [] \<longleftrightarrow> (\<forall>c \<in> set s. is_space c)"
  by (simp add: trim_def all_dropWhile)

lemma blank_note_state_eval:
  "sessionActive blank_note_state" "qualitativeNote blank_note_state = [0x20, 0x3000, 0x9]"
  by (simp_all add: blank_note_state_def initial_def step_def method_defs effect_defs)

text \<open>
  Claim C10. While the session is active and the note is empty or consists only of
  white space, \<open>submitQualitativeNote\<close> changes nothing: no log entry is added and the
  note keeps its value.
\<close>

theorem blank_note_noop:
  assumes "sessionActive st" and "\<forall>c \<in> set (qualitativeNote st). is_space c"
  shows "submitQualitativeNote now st = st \<and> step (SubmitQualitativeNote now) st = st"
  using assms by (simp add: submitQualitativeNote_def trim_empty_iff step_def flushEffects_def)

theorem blank_note_noop_witness:
  "sessionActive blank_note_state
   \<and> list_all is_space (qualitativeNote blank_note_state)
   \<and> logs (submitQualitativeNote 2000 blank_note_state) = logs blank_note_state
   \<and> qualitativeNote (submitQualitativeNote 2000 blank_note_state) = [0x20, 0x3000, 0x9]"
proof -
  have a: "sessionActive blank_note_state" by (rule blank_note_state_eval)
  have b: "\<forall>c \<in> set (qualitativeNote blank_note_state). is_space c"
    by (simp add: blank_note_state_eval is_space_def)
  show ?thesis
    using a b blank_note_noop [OF a b, of 2000]
    by (simp add: blank_note_state_eval list_all_iff)
qed

end
